theory Spec2Isabelle
  imports Main
begin

section \<open>Regular expressions of the program\<close>

text \<open>
  The program compiles two patterns with Go's \<open>regexp\<close> package and only ever asks
  \<open>MatchString\<close>, which reports whether the string contains any match of the pattern.
  Strings are byte sequences; \<open>.\<close> is any character but the line feed.  The two
  patterns use literals, \<open>.\<close>, character ranges, \<open>*\<close>, \<open>+\<close> and \<open>{2,3}\<close>.
\<close>

datatype rexp =
    Fail
  | Eps
  | Chr char
  | Dot
  | AnyByte
  | Ranges "(char \<times> char) list"
  | Seq rexp rexp
  | Alt rexp rexp
  | Star rexp

fun inRanges :: "(char \<times> char) list \<Rightarrow> char \<Rightarrow> bool" where
  "inRanges [] c = False"
| "inRanges ((lo, hi) # rs) c =
     (((of_char lo :: nat) \<le> of_char c \<and> (of_char c :: nat) \<le> of_char hi) \<or> inRanges rs c)"

fun nullable :: "rexp \<Rightarrow> bool" where
  "nullable Fail = False"
| "nullable Eps = True"
| "nullable (Chr c) = False"
| "nullable Dot = False"
| "nullable AnyByte = False"
| "nullable (Ranges rs) = False"
| "nullable (Seq r s) = (nullable r \<and> nullable s)"
| "nullable (Alt r s) = (nullable r \<or> nullable s)"
| "nullable (Star r) = True"

fun mkSeq :: "rexp \<Rightarrow> rexp \<Rightarrow> rexp" where
  "mkSeq Fail s = Fail"
| "mkSeq Eps s = s"
| "mkSeq r s = Seq r s"

fun mkAlt :: "rexp \<Rightarrow> rexp \<Rightarrow> rexp" where
  "mkAlt Fail s = s"
| "mkAlt r Fail = r"
| "mkAlt r s = Alt r s"

fun deriv :: "char \<Rightarrow> rexp \<Rightarrow> rexp" where
  "deriv c Fail = Fail"
| "deriv c Eps = Fail"
| "deriv c (Chr d) = (if c = d then Eps else Fail)"
| "deriv c Dot = (if c = CHR 0x0A then Fail else Eps)"
| "deriv c AnyByte = Eps"
| "deriv c (Ranges rs) = (if inRanges rs c then Eps else Fail)"
| "deriv c (Seq r s) =
     (if nullable r then mkAlt (mkSeq (deriv c r) s) (deriv c s) else mkSeq (deriv c r) s)"
| "deriv c (Alt r s) = mkAlt (deriv c r) (deriv c s)"
| "deriv c (Star r) = mkSeq (deriv c r) (Star r)"

fun derivs :: "rexp \<Rightarrow> string \<Rightarrow> rexp" where
  "derivs r [] = r"
| "derivs r (c # cs) = derivs (deriv c r) cs"

definition fullMatch :: "rexp \<Rightarrow> string \<Rightarrow> bool" where
  "fullMatch r s = nullable (derivs r s)"

definition MatchString :: "rexp \<Rightarrow> string \<Rightarrow> bool" where
  "MatchString re s = fullMatch (Seq (Star AnyByte) (Seq re (Star AnyByte))) s"

fun Lit :: "string \<Rightarrow> rexp" where
  "Lit [] = Eps"
| "Lit (c # cs) = Seq (Chr c) (Lit cs)"

definition Plus1 :: "rexp \<Rightarrow> rexp" where
  "Plus1 r = Seq r (Star r)"

definition letter :: rexp where
  "letter = Ranges [(CHR ''a'', CHR ''z''), (CHR ''A'', CHR ''Z'')]"

definition digit :: rexp where
  "digit = Ranges [(CHR ''0'', CHR ''9'')]"

definition urlRe :: rexp where
  "urlRe =
     Seq (Lit ''https://'')
    (Seq (Star Dot)
    (Seq (Lit ''aws.amazon.com/s3/home?region='')
    (Seq (Seq letter (Seq letter (Alt letter Eps)))
    (Seq (Chr CHR ''-'')
    (Seq (Plus1 letter)
    (Seq (Chr CHR ''-'')
    (Seq (Plus1 digit)
         (Chr CHR ''#''))))))))"

definition revRe :: rexp where
  "revRe = Seq (Lit ''Amazon S3 version id: '') (Star Dot)"


section \<open>Data of the program and of the services it calls\<close>

text \<open>
  The structures of the pipeline and object-store clients hold pointers: a field that
  is \<open>nil\<close> is \<open>None\<close> here, and reading through it is the run-time panic of the
  program.  Elements of the slices are taken to be present.  Two fields are renamed, as
  field names are global here: \<open>RevisionId\<close> of an artifact revision is
  \<open>ArtifactRevisionId\<close>, and \<open>PipelineExecution\<close> of the output of the query is
  \<open>PipelineExecutionOf\<close>.  A metadata map gives \<open>nil\<close> for an absent key, so it is a
  function to \<open>string option\<close>.
\<close>

record ActionRevision =
  RevisionId :: "string option"

record ActionState =
  EntityUrl :: "string option"
  CurrentRevision :: "ActionRevision option"

record StageExecution =
  PipelineExecutionId :: "string option"
  Status :: "string option"

record StageState =
  StageName :: "string option"
  LatestExecution :: "StageExecution option"
  ActionStates :: "ActionState list"

record ArtifactRevision =
  ArtifactRevisionId :: "string option"
  RevisionSummary :: "string option"

record PipelineExecution =
  ArtifactRevisions :: "ArtifactRevision list"

record GetPipelineExecutionOutput =
  PipelineExecutionOf :: "PipelineExecution option"

record HeadObjectOutput =
  Metadata :: "string \<Rightarrow> string option"

text \<open>
  An error of a client call is either a service error, with a code and a message, or
  any other error; both have a full text.
\<close>

datatype sdkError =
    AwsErr string string string
  | OtherErr string

fun errorText :: "sdkError \<Rightarrow> string" where
  "errorText (AwsErr code msg txt) = txt"
| "errorText (OtherErr txt) = txt"

record Cfg =
  Region :: string
  PipelineName :: string
  Bucket :: string
  Key :: string

text \<open>
  The three remote operations.  \<open>GetPipelineExecution\<close> takes the pipeline name and
  the execution id, \<open>HeadObject\<close> the bucket, the key and the version id.
\<close>

record services =
  GetPipelineState :: "string \<Rightarrow> sdkError + StageState list"
  GetPipelineExecution :: "string \<Rightarrow> string \<Rightarrow> sdkError + GetPipelineExecutionOutput"
  HeadObject :: "string \<Rightarrow> string \<Rightarrow> string \<Rightarrow> sdkError + HeadObjectOutput"

record stageDetails =
  name :: string
  executionId :: string
  status :: string
  revisionId :: string
  versionDeployed :: string
  commit :: string

text \<open>
  How a run ends early: the panic of a \<open>nil\<close> dereference, or \<open>os.Exit(1)\<close> after a
  message was printed.
\<close>

datatype fatal =
    NilDereference
  | Exit1 string

datatype call =
    ExecutionQuery string string
  | MetadataQuery string string string

text \<open>
  The variables that live across the iterations of the loop over the stages: \<open>execId\<close>
  and \<open>revid\<close> of the program, the rows handed to the table writer so far (the two
  header lines are left out), and the remote calls made so far, in order.
\<close>

record vars =
  execId :: string
  revid :: string
  written :: "stageDetails list"
  calls :: "call list"

definition row :: "stageDetails \<Rightarrow> string" where
  "row d = name d @ [CHR 0x09] @ status d @ [CHR 0x09] @ versionDeployed d
             @ [CHR 0x09, CHR 0x09] @ executionId d @ [CHR 0x0A]"

section \<open>The program\<close>

text \<open>Lines 101 to 106: the scan of the source stage's actions, leaving at the first match.\<close>

fun actionsLoop :: "ActionState list \<Rightarrow> string \<Rightarrow> fatal + string" where
  "actionsLoop [] rv = Inr rv"
| "actionsLoop (astate # rest) rv =
     (case EntityUrl astate of
        None \<Rightarrow> Inl NilDereference
      | Some url \<Rightarrow>
          if MatchString urlRe url then
            (case CurrentRevision astate of
               None \<Rightarrow> Inl NilDereference
             | Some cur \<Rightarrow>
                 (case RevisionId cur of
                    None \<Rightarrow> Inl NilDereference
                  | Some r \<Rightarrow> Inr r))
          else actionsLoop rest rv)"

text \<open>Lines 100 to 109: what the loop body does for a stage named Source.\<close>

definition sourcePart :: "StageState \<Rightarrow> vars \<Rightarrow> fatal + vars" where
  "sourcePart stage v =
     (case StageName stage of
        None \<Rightarrow> Inl NilDereference
      | Some n \<Rightarrow>
          if n = ''Source'' then
            (case actionsLoop (ActionStates stage) (revid v) of
               Inl f \<Rightarrow> Inl f
             | Inr r \<Rightarrow>
                 (case LatestExecution stage of
                    None \<Rightarrow> Inl NilDereference
                  | Some le \<Rightarrow>
                      (case PipelineExecutionId le of
                         None \<Rightarrow> Inl NilDereference
                       | Some e \<Rightarrow> Inr (v\<lparr>revid := r, execId := e\<rparr>))))
          else Inr v)"

text \<open>Lines 111 to 115: the details of the stage, with the three dereferences.\<close>

definition newDetails :: "StageState \<Rightarrow> fatal + stageDetails" where
  "newDetails stage =
     (case StageName stage of
        None \<Rightarrow> Inl NilDereference
      | Some n \<Rightarrow>
          (case LatestExecution stage of
             None \<Rightarrow> Inl NilDereference
           | Some le \<Rightarrow>
               (case PipelineExecutionId le of
                  None \<Rightarrow> Inl NilDereference
                | Some e \<Rightarrow>
                    (case Status le of
                       None \<Rightarrow> Inl NilDereference
                     | Some st \<Rightarrow>
                         Inr \<lparr>name = n, executionId = e, status = st, revisionId = [],
                              versionDeployed = [], commit = []\<rparr>))))"

text \<open>
  Lines 142 to 146: the scan of the artifact revisions, which has no \<open>break\<close>.  The
  second argument is the field \<open>details.revisionId\<close>, the only one the loop assigns.
\<close>

fun revisionsLoop :: "ArtifactRevision list \<Rightarrow> string \<Rightarrow> fatal + string" where
  "revisionsLoop [] rid = Inr rid"
| "revisionsLoop (revision # rest) rid =
     (case RevisionSummary revision of
        None \<Rightarrow> Inl NilDereference
      | Some summary \<Rightarrow>
          if MatchString revRe summary then
            (case ArtifactRevisionId revision of
               None \<Rightarrow> Inl NilDereference
             | Some r \<Rightarrow> revisionsLoop rest r)
          else revisionsLoop rest rid)"

text \<open>
  Lines 122 to 146: the query of an earlier execution, given its id and the field
  \<open>details.revisionId\<close>; the result is that field after the scan.
\<close>

definition fromExecution :: "Cfg \<Rightarrow> services \<Rightarrow> string \<Rightarrow> string \<Rightarrow> fatal + string" where
  "fromExecution cfg svc eid rid =
     (case GetPipelineExecution svc (PipelineName cfg) eid of
        Inl err \<Rightarrow> Inl (Exit1 (errorText err @ [CHR 0x0A]))
      | Inr out \<Rightarrow>
          (case PipelineExecutionOf out of
             None \<Rightarrow> Inl NilDereference
           | Some pe \<Rightarrow> revisionsLoop (ArtifactRevisions pe) rid))"

text \<open>Lines 162 to 186.\<close>

definition getMetadataFromRevision ::
  "services \<Rightarrow> Cfg \<Rightarrow> string \<Rightarrow> string + (string \<Rightarrow> string option)" where
  "getMetadataFromRevision svc cfg ver =
     (case HeadObject svc (Bucket cfg) (Key cfg) ver of
        Inl (AwsErr code msg txt) \<Rightarrow> Inl (''failed to retrieve version metadata: '' @ msg)
      | Inl (OtherErr txt) \<Rightarrow> Inl txt
      | Inr result \<Rightarrow> Inr (Metadata result))"

text \<open>
  Lines 116 to 148: the revision id of the stage, from the variables when the stage is of
  the tracked execution, from a query of its own execution otherwise.  The call is
  logged when it is made, also when what follows fails.
\<close>

definition resolvePart ::
  "Cfg \<Rightarrow> services \<Rightarrow> stageDetails \<Rightarrow> vars \<Rightarrow> vars \<times> (fatal + string)" where
  "resolvePart cfg svc details v =
     (if execId v = executionId details
      then (v, Inr (revid v))
      else (v\<lparr>calls := calls v @ [ExecutionQuery (PipelineName cfg) (executionId details)]\<rparr>,
            fromExecution cfg svc (executionId details) (revisionId details)))"

text \<open>Lines 149 to 158: the metadata of the revision, the two fields, the row.\<close>

definition metadataPart ::
  "Cfg \<Rightarrow> services \<Rightarrow> stageDetails \<Rightarrow> vars \<Rightarrow> vars \<times> fatal option" where
  "metadataPart cfg svc details v =
     (let v' = v\<lparr>calls := calls v @
                   [MetadataQuery (Bucket cfg) (Key cfg) (revisionId details)]\<rparr>
      in case getMetadataFromRevision svc cfg (revisionId details) of
           Inl err \<Rightarrow>
             (v', Some (Exit1 (''get metadata from file revision: '' @ err @ [CHR 0x0A])))
         | Inr meta \<Rightarrow>
             (case meta ''Version'' of
                None \<Rightarrow> (v', Some NilDereference)
              | Some ver \<Rightarrow>
                  (case meta ''Commit'' of
                     None \<Rightarrow> (v', Some NilDereference)
                   | Some com \<Rightarrow>
                       (v'\<lparr>written := written v' @
                              [details\<lparr>versionDeployed := ver, commit := com\<rparr>]\<rparr>,
                        None))))"

text \<open>
  Lines 97 to 159: one iteration; the variables after it and how it ended.  After a
  panic in the first two parts the variables are returned as they were before the part:
  nothing reads \<open>execId\<close> or \<open>revid\<close> after a panic, and the rows and the calls are
  not touched there.
\<close>

definition stageBody :: "Cfg \<Rightarrow> services \<Rightarrow> StageState \<Rightarrow> vars \<Rightarrow> vars \<times> fatal option" where
  "stageBody cfg svc stage v =
     (case sourcePart stage v of
        Inl f \<Rightarrow> (v, Some f)
      | Inr v1 \<Rightarrow>
          (case newDetails stage of
             Inl f \<Rightarrow> (v1, Some f)
           | Inr details \<Rightarrow>
               (case resolvePart cfg svc details v1 of
                  (v2, Inl f) \<Rightarrow> (v2, Some f)
                | (v2, Inr rid) \<Rightarrow> metadataPart cfg svc (details\<lparr>revisionId := rid\<rparr>) v2)))"

fun stagesLoop :: "Cfg \<Rightarrow> services \<Rightarrow> StageState list \<Rightarrow> vars \<Rightarrow> vars \<times> fatal option" where
  "stagesLoop cfg svc [] v = (v, None)"
| "stagesLoop cfg svc (stage # rest) v =
     (case stageBody cfg svc stage v of
        (v', None) \<Rightarrow> stagesLoop cfg svc rest v'
      | (v', Some f) \<Rightarrow> (v', Some f))"

text \<open>Line 91: both variables start as the empty string.\<close>

definition initVars :: vars where
  "initVars = \<lparr>execId = [], revid = [], written = [], calls = []\<rparr>"

definition report :: "Cfg \<Rightarrow> services \<Rightarrow> StageState list \<Rightarrow> vars \<times> fatal option" where
  "report cfg svc stages = stagesLoop cfg svc stages initVars"

text \<open>Lines 79 to 159: the state of the pipeline is fetched once, then reported.\<close>

definition main :: "Cfg \<Rightarrow> services \<Rightarrow> vars \<times> fatal option" where
  "main cfg svc =
     (case GetPipelineState svc (PipelineName cfg) of
        Inl (AwsErr code msg txt) \<Rightarrow>
          (initVars, Some (Exit1 (''failed to get pipeline state: '' @ msg @ [CHR 0x0A])))
      | Inl (OtherErr txt) \<Rightarrow> (initVars, Some (Exit1 (txt @ [CHR 0x0A])))
      | Inr stages \<Rightarrow> report cfg svc stages)"


section \<open>Vocabulary of the statements\<close>

text \<open>
  The latest execution id of a stage, when it has one; a row describes a stage when it
  carries the name, the execution id and the status of the stage.
\<close>

definition latestExecutionId :: "StageState \<Rightarrow> string option" where
  "latestExecutionId stage =
     (case LatestExecution stage of None \<Rightarrow> None | Some le \<Rightarrow> PipelineExecutionId le)"

definition describes :: "StageState \<Rightarrow> stageDetails \<Rightarrow> bool" where
  "describes stage d \<longleftrightarrow>
     StageName stage = Some (name d) \<and>
     (case LatestExecution stage of
        None \<Rightarrow> False
      | Some le \<Rightarrow> PipelineExecutionId le = Some (executionId d) \<and> Status le = Some (status d))"

text \<open>
  A row is resolved as the program resolves it, for a tracked execution id and a live
  revision: the live revision when the row is of the tracked execution, what the query
  of its own execution gives otherwise.
\<close>

definition resolvedAs ::
  "Cfg \<Rightarrow> services \<Rightarrow> string \<Rightarrow> string \<Rightarrow> StageState \<Rightarrow> stageDetails \<Rightarrow> bool" where
  "resolvedAs cfg svc epoch live stage d \<longleftrightarrow>
     describes stage d \<and>
     (if executionId d = epoch then revisionId d = live
      else fromExecution cfg svc (executionId d) [] = Inr (revisionId d))"

text \<open>The execution ids and the version ids that the calls of a run ask for, in order.\<close>

definition executionQueries :: "call list \<Rightarrow> string list" where
  "executionQueries cs =
     concat (map (\<lambda>c. case c of ExecutionQuery p e \<Rightarrow> [e] | MetadataQuery b k r \<Rightarrow> []) cs)"

definition metadataQueries :: "call list \<Rightarrow> string list" where
  "metadataQueries cs =
     concat (map (\<lambda>c. case c of ExecutionQuery p e \<Rightarrow> [] | MetadataQuery b k r \<Rightarrow> [r]) cs)"

text \<open>
  An action the scan passes over has a URL that does not match; a matching action has a
  URL that matches; its revision id is present when both pointers on the way are.
\<close>

definition passedOver :: "ActionState \<Rightarrow> bool" where
  "passedOver a = (case EntityUrl a of None \<Rightarrow> False | Some u \<Rightarrow> \<not> MatchString urlRe u)"

definition matching :: "ActionState \<Rightarrow> bool" where
  "matching a = (case EntityUrl a of None \<Rightarrow> False | Some u \<Rightarrow> MatchString urlRe u)"

definition revisionOf :: "ActionState \<Rightarrow> string option" where
  "revisionOf a = (case CurrentRevision a of None \<Rightarrow> None | Some cur \<Rightarrow> RevisionId cur)"








text \<open>
  The metadata of a version id is complete when the lookup succeeds and gives both
  fields, and lacking when the lookup succeeds and a field is absent.
\<close>

definition complete :: "Cfg \<Rightarrow> services \<Rightarrow> string \<Rightarrow> bool" where
  "complete cfg svc r =
     (case HeadObject svc (Bucket cfg) (Key cfg) r of
        Inl err \<Rightarrow> False
      | Inr out \<Rightarrow> Metadata out ''Version'' \<noteq> None \<and> Metadata out ''Commit'' \<noteq> None)"

definition lacking :: "Cfg \<Rightarrow> services \<Rightarrow> string \<Rightarrow> bool" where
  "lacking cfg svc r =
     (case HeadObject svc (Bucket cfg) (Key cfg) r of
        Inl err \<Rightarrow> False
      | Inr out \<Rightarrow> Metadata out ''Version'' = None \<or> Metadata out ''Commit'' = None)"

text \<open>Two services answer a call alike.\<close>

definition sameResponse :: "services \<Rightarrow> services \<Rightarrow> call \<Rightarrow> bool" where
  "sameResponse svc svc' c =
     (case c of
        ExecutionQuery p e \<Rightarrow> GetPipelineExecution svc p e = GetPipelineExecution svc' p e
      | MetadataQuery b k r \<Rightarrow> HeadObject svc b k r = HeadObject svc' b k r)"


section \<open>Example data\<close>

text \<open>
  A pipeline of three stages, the last one still of an earlier execution, with services
  given by tables: the revisions of each execution, the metadata of each version id.
\<close>

definition exampleCfg :: Cfg where
  "exampleCfg = \<lparr>Region = ''us-east-1'', PipelineName = ''pipe'', Bucket = ''artifacts'',
                  Key = ''version.zip''\<rparr>"

definition consoleUrl :: string where
  "consoleUrl = ''https://console.aws.amazon.com/s3/home?region=us-east-1#''"

definition liveAction :: "string \<Rightarrow> ActionState" where
  "liveAction r = \<lparr>EntityUrl = Some consoleUrl, CurrentRevision = Some \<lparr>RevisionId = Some r\<rparr>\<rparr>"

definition otherAction :: ActionState where
  "otherAction = \<lparr>EntityUrl = Some ''https://github.com/acme/app'',
                   CurrentRevision = Some \<lparr>RevisionId = Some ''4f2c''\<rparr>\<rparr>"

definition bareAction :: ActionState where
  "bareAction = \<lparr>EntityUrl = Some consoleUrl, CurrentRevision = None\<rparr>"

definition stageAt :: "string \<Rightarrow> string \<Rightarrow> ActionState list \<Rightarrow> StageState" where
  "stageAt n e acts =
     \<lparr>StageName = Some n,
      LatestExecution = Some \<lparr>PipelineExecutionId = Some e, Status = Some ''Succeeded''\<rparr>,
      ActionStates = acts\<rparr>"

definition neverRun :: StageState where
  "neverRun = \<lparr>StageName = Some ''Source'', LatestExecution = None,
               ActionStates = [liveAction ''R1'']\<rparr>"

definition s3Revision :: "string \<Rightarrow> ArtifactRevision" where
  "s3Revision r = \<lparr>ArtifactRevisionId = Some r,
                    RevisionSummary = Some (''Amazon S3 version id: '' @ r)\<rparr>"

definition noUrlAction :: ActionState where
  "noUrlAction = \<lparr>EntityUrl = None, CurrentRevision = Some \<lparr>RevisionId = Some ''R0''\<rparr>\<rparr>"



definition history ::
  "(string \<times> ArtifactRevision list) list \<Rightarrow> string \<Rightarrow> string \<Rightarrow>
     sdkError + GetPipelineExecutionOutput" where
  "history tbl p e =
     (case map_of tbl e of
        None \<Rightarrow> Inl (AwsErr ''PipelineExecutionNotFoundException'' ''no such execution''
                       ''PipelineExecutionNotFoundException: no such execution'')
      | Some revs \<Rightarrow> Inr \<lparr>PipelineExecutionOf = Some \<lparr>ArtifactRevisions = revs\<rparr>\<rparr>)"

definition store ::
  "(string \<times> (string \<times> string) list) list \<Rightarrow> string \<Rightarrow> string \<Rightarrow> string \<Rightarrow>
     sdkError + HeadObjectOutput" where
  "store tbl b k ver =
     (case map_of tbl ver of
        None \<Rightarrow> Inl (AwsErr ''NotFound'' ''Not Found'' ''NotFound: Not Found'')
      | Some kv \<Rightarrow> Inr \<lparr>Metadata = map_of kv\<rparr>)"

definition servicesOf ::
  "(string \<times> ArtifactRevision list) list \<Rightarrow> (string \<times> (string \<times> string) list) list \<Rightarrow>
     services" where
  "servicesOf h s =
     \<lparr>GetPipelineState = (\<lambda>p. Inr []), GetPipelineExecution = history h, HeadObject = store s\<rparr>"

definition exampleStore :: "(string \<times> (string \<times> string) list) list" where
  "exampleStore =
     [(''R1'', [(''Version'', ''2.3.0''), (''Commit'', ''abc123'')]),
      (''R0'', [(''Version'', ''2.2.0''), (''Commit'', ''99f0aa'')]),
      (''R9'', [(''Version'', ''1.0.0''), (''Commit'', ''000001'')])]"

definition untaggedStore :: "(string \<times> (string \<times> string) list) list" where
  "untaggedStore =
     [(''R1'', [(''Version'', ''2.3.0''), (''Commit'', ''abc123'')]),
      (''R0'', [(''Commit'', ''99f0aa'')])]"

definition exampleHistory :: "(string \<times> ArtifactRevision list) list" where
  "exampleHistory = [(''E0'', [s3Revision ''R0'']), (''E1'', [s3Revision ''R1''])]"

definition staleHistory :: "(string \<times> ArtifactRevision list) list" where
  "staleHistory = [(''E1'', [s3Revision ''R0''])]"

definition twoSources :: "(string \<times> ArtifactRevision list) list" where
  "twoSources = [(''E0'', [s3Revision ''R0'', s3Revision ''R9''])]"

definition longerHistory :: "(string \<times> ArtifactRevision list) list" where
  "longerHistory = exampleHistory @ [(''E7'', [s3Revision ''R9''])]"

definition exampleStages :: "StageState list" where
  "exampleStages =
     [stageAt ''Source'' ''E1'' [liveAction ''R1''], stageAt ''Build'' ''E1'' [],
      stageAt ''Deploy'' ''E0'' []]"

definition deployFirst :: "StageState list" where
  "deployFirst = [stageAt ''Deploy'' ''E1'' [], stageAt ''Source'' ''E1'' [liveAction ''R1'']]"

definition exampleServices :: services where
  "exampleServices = servicesOf exampleHistory exampleStore"

definition exampleResult :: vars where
  "exampleResult =
     \<lparr>execId = ''E1'', revid = ''R1'',
      written =
        [\<lparr>name = ''Source'', executionId = ''E1'', status = ''Succeeded'', revisionId = ''R1'',
          versionDeployed = ''2.3.0'', commit = ''abc123''\<rparr>,
         \<lparr>name = ''Build'', executionId = ''E1'', status = ''Succeeded'', revisionId = ''R1'',
          versionDeployed = ''2.3.0'', commit = ''abc123''\<rparr>,
         \<lparr>name = ''Deploy'', executionId = ''E0'', status = ''Succeeded'', revisionId = ''R0'',
          versionDeployed = ''2.2.0'', commit = ''99f0aa''\<rparr>],
      calls =
        [MetadataQuery ''artifacts'' ''version.zip'' ''R1'',
         MetadataQuery ''artifacts'' ''version.zip'' ''R1'',
         ExecutionQuery ''pipe'' ''E0'', MetadataQuery ''artifacts'' ''version.zip'' ''R0'']\<rparr>"


section \<open>Properties\<close>

lemma executionQueries_append [simp]:
  "executionQueries (xs @ ys) = executionQueries xs @ executionQueries ys"
  by (simp add: executionQueries_def)

lemma executionQueries_simps [simp]:
  "executionQueries [] = []"
  "executionQueries (ExecutionQuery p e # cs) = e # executionQueries cs"
  "executionQueries (MetadataQuery b k r # cs) = executionQueries cs"
  by (simp_all add: executionQueries_def)

lemma sourcePart_other:
  "StageName stage \<noteq> Some ''Source'' \<Longrightarrow> sourcePart stage v = Inr v1 \<Longrightarrow> v1 = v"
  by (auto simp: sourcePart_def split: option.splits if_splits)

lemma sourcePart_frame:
  "sourcePart stage v = Inr v1 \<Longrightarrow> written v1 = written v \<and> calls v1 = calls v"
  by (auto simp: sourcePart_def split: option.splits if_splits sum.splits)

lemma newDetails_fields:
  "newDetails stage = Inr d \<Longrightarrow>
     StageName stage = Some (name d) \<and>
     (\<exists>le. LatestExecution stage = Some le \<and> PipelineExecutionId le = Some (executionId d)
        \<and> Status le = Some (status d)) \<and> revisionId d = []"
  by (auto simp: newDetails_def split: option.splits)

lemma resolvePart_result:
  assumes "resolvePart cfg svc d v = (v2, r)"
  shows "execId v2 = execId v \<and> revid v2 = revid v \<and> written v2 = written v \<and>
         (if execId v = executionId d
          then calls v2 = calls v \<and> r = Inr (revid v)
          else calls v2 = calls v @ [ExecutionQuery (PipelineName cfg) (executionId d)] \<and>
               r = fromExecution cfg svc (executionId d) (revisionId d))"
  using assms by (auto simp: resolvePart_def split: if_splits)

lemma metadataPart_result:
  assumes "metadataPart cfg svc d v = (v3, res)"
  shows "execId v3 = execId v \<and> revid v3 = revid v \<and>
         calls v3 = calls v @ [MetadataQuery (Bucket cfg) (Key cfg) (revisionId d)] \<and>
         (case res of
            None \<Rightarrow> \<exists>ver com. written v3 = written v @ [d\<lparr>versionDeployed := ver, commit := com\<rparr>]
          | Some f \<Rightarrow> written v3 = written v)"
  using assms unfolding metadataPart_def Let_def
  by (fastforce split: sum.splits option.splits)

text \<open>An iteration that got as far as the details of the stage.\<close>

lemma stageBody_steps:
  assumes "sourcePart stage v = Inr v1" and "newDetails stage = Inr d0"
  shows "stageBody cfg svc stage v =
           (case resolvePart cfg svc d0 v1 of
              (v2, Inl f) \<Rightarrow> (v2, Some f)
            | (v2, Inr rid) \<Rightarrow> metadataPart cfg svc (d0\<lparr>revisionId := rid\<rparr>) v2)"
  using assms by (simp add: stageBody_def)

text \<open>What a completed iteration has done.\<close>

lemma stageBody_done:
  assumes "stageBody cfg svc stage v = (v', None)"
  shows "\<exists>v1 d0 d. sourcePart stage v = Inr v1 \<and> newDetails stage = Inr d0 \<and>
           execId v' = execId v1 \<and> revid v' = revid v1 \<and>
           written v' = written v @ [d] \<and>
           name d = name d0 \<and> executionId d = executionId d0 \<and> status d = status d0 \<and>
           (if executionId d = execId v1
            then revisionId d = revid v1 \<and>
                 calls v' = calls v @ [MetadataQuery (Bucket cfg) (Key cfg) (revisionId d)]
            else fromExecution cfg svc (executionId d) [] = Inr (revisionId d) \<and>
                 calls v' = calls v @ [ExecutionQuery (PipelineName cfg) (executionId d),
                                       MetadataQuery (Bucket cfg) (Key cfg) (revisionId d)])"
proof -
  from assms obtain v1 where sp: "sourcePart stage v = Inr v1"
    by (cases "sourcePart stage v") (simp_all add: stageBody_def)
  from assms sp obtain d0 where nd: "newDetails stage = Inr d0"
    by (cases "newDetails stage") (simp_all add: stageBody_def)
  obtain v2 r where rp: "resolvePart cfg svc d0 v1 = (v2, r)"
    by (cases "resolvePart cfg svc d0 v1")
  from assms rp obtain rid where r: "r = Inr rid"
    unfolding stageBody_steps [OF sp nd] by (cases r) simp_all
  from assms rp r have mp: "metadataPart cfg svc (d0\<lparr>revisionId := rid\<rparr>) v2 = (v', None)"
    unfolding stageBody_steps [OF sp nd] by simp
  from metadataPart_result [OF mp] obtain ver com where
    m: "execId v' = execId v2" "revid v' = revid v2"
       "calls v' = calls v2 @ [MetadataQuery (Bucket cfg) (Key cfg) rid]"
       "written v' = written v2 @ [d0\<lparr>revisionId := rid, versionDeployed := ver, commit := com\<rparr>]"
    by auto
  let ?d = "d0\<lparr>revisionId := rid, versionDeployed := ver, commit := com\<rparr>"
  note rr = resolvePart_result [OF rp] and fr = sourcePart_frame [OF sp]
  have d0: "revisionId d0 = []" using newDetails_fields [OF nd] by simp
  have "execId v' = execId v1" "revid v' = revid v1" "written v' = written v @ [?d]"
    using m rr fr by simp_all
  moreover have "if executionId ?d = execId v1
            then revisionId ?d = revid v1 \<and>
                 calls v' = calls v @ [MetadataQuery (Bucket cfg) (Key cfg) (revisionId ?d)]
            else fromExecution cfg svc (executionId ?d) [] = Inr (revisionId ?d) \<and>
                 calls v' = calls v @ [ExecutionQuery (PipelineName cfg) (executionId ?d),
                                       MetadataQuery (Bucket cfg) (Key cfg) (revisionId ?d)]"
    using m rr fr r d0 by (auto split: if_splits)
  ultimately show ?thesis using sp nd
    by (intro exI [of _ v1] exI [of _ d0] exI [of _ ?d]) simp
qed

lemma stagesLoop_append:
  "stagesLoop cfg svc (xs @ ys) v =
     (case stagesLoop cfg svc xs v of
        (v', None) \<Rightarrow> stagesLoop cfg svc ys v'
      | (v', Some f) \<Rightarrow> (v', Some f))"
  by (induction xs arbitrary: v) (auto split: prod.splits option.splits)

lemma stageBody_other:
  assumes "stageBody cfg svc stage v = (v', None)" and "StageName stage \<noteq> Some ''Source''"
  shows "execId v' = execId v \<and> revid v' = revid v \<and>
         (\<exists>d. written v' = written v @ [d] \<and> resolvedAs cfg svc (execId v) (revid v) stage d \<and>
              executionQueries (calls v') =
                executionQueries (calls v) @ filter (\<lambda>e. e \<noteq> execId v) [executionId d])"
proof -
  from stageBody_done [OF assms(1)] obtain v1 d0 d where
    sp: "sourcePart stage v = Inr v1" and nd: "newDetails stage = Inr d0" and
    ev: "execId v' = execId v1" "revid v' = revid v1" and
    wr: "written v' = written v @ [d]" and
    same: "name d = name d0" "executionId d = executionId d0" "status d = status d0" and
    res: "if executionId d = execId v1
            then revisionId d = revid v1 \<and>
                 calls v' = calls v @ [MetadataQuery (Bucket cfg) (Key cfg) (revisionId d)]
            else fromExecution cfg svc (executionId d) [] = Inr (revisionId d) \<and>
                 calls v' = calls v @ [ExecutionQuery (PipelineName cfg) (executionId d),
                                       MetadataQuery (Bucket cfg) (Key cfg) (revisionId d)]"
    by blast
  have v1: "v1 = v" using sourcePart_other [OF assms(2) sp] .
  have de: "describes stage d"
    using newDetails_fields [OF nd] same by (auto simp: describes_def)
  show ?thesis
    using ev wr res de unfolding v1 resolvedAs_def by (auto split: if_splits)
qed

lemma sourcePart_source:
  assumes "sourcePart stage v = Inr v1" and "StageName stage = Some ''Source''"
  shows "actionsLoop (ActionStates stage) (revid v) = Inr (revid v1) \<and>
         (\<exists>le. LatestExecution stage = Some le \<and> PipelineExecutionId le = Some (execId v1))"
  using assms by (auto simp: sourcePart_def split: option.splits sum.splits)

lemma stageBody_source:
  assumes "stageBody cfg svc stage v = (v', None)" and "StageName stage = Some ''Source''"
  shows "actionsLoop (ActionStates stage) (revid v) = Inr (revid v') \<and>
         (\<exists>d. written v' = written v @ [d] \<and> executionId d = execId v' \<and>
              resolvedAs cfg svc (execId v') (revid v') stage d \<and>
              executionQueries (calls v') = executionQueries (calls v))"
proof -
  from stageBody_done [OF assms(1)] obtain v1 d0 d where
    sp: "sourcePart stage v = Inr v1" and nd: "newDetails stage = Inr d0" and
    ev: "execId v' = execId v1" "revid v' = revid v1" and
    wr: "written v' = written v @ [d]" and
    same: "name d = name d0" "executionId d = executionId d0" "status d = status d0" and
    res: "if executionId d = execId v1
            then revisionId d = revid v1 \<and>
                 calls v' = calls v @ [MetadataQuery (Bucket cfg) (Key cfg) (revisionId d)]
            else fromExecution cfg svc (executionId d) [] = Inr (revisionId d) \<and>
                 calls v' = calls v @ [ExecutionQuery (PipelineName cfg) (executionId d),
                                       MetadataQuery (Bucket cfg) (Key cfg) (revisionId d)]"
    by blast
  have de: "describes stage d"
    using newDetails_fields [OF nd] same by (auto simp: describes_def)
  from sourcePart_source [OF sp assms(2)] newDetails_fields [OF nd] same
  have eq: "executionId d = execId v1" and al: "actionsLoop (ActionStates stage) (revid v) = Inr (revid v1)"
    by auto
  show ?thesis
    using ev wr res de eq al unfolding resolvedAs_def by auto
qed

lemma stagesLoop_others:
  assumes "stagesLoop cfg svc ss v0 = (v, None)"
      and "\<forall>s\<in>set ss. StageName s \<noteq> Some ''Source''"
  shows "execId v = execId v0 \<and> revid v = revid v0 \<and>
         (\<exists>ds. written v = written v0 @ ds \<and>
               list_all2 (resolvedAs cfg svc (execId v0) (revid v0)) ss ds \<and>
               executionQueries (calls v) =
                 executionQueries (calls v0) @
                 filter (\<lambda>e. e \<noteq> execId v0) (map executionId ds))"
  using assms
proof (induction ss arbitrary: v0)
  case Nil
  then show ?case by simp
next
  case (Cons s ss)
  from Cons.prems(1) obtain v1 where
    b: "stageBody cfg svc s v0 = (v1, None)" and l: "stagesLoop cfg svc ss v1 = (v, None)"
    by (auto split: prod.splits option.splits)
  from Cons.prems(2) have ns: "StageName s \<noteq> Some ''Source''" and
    nss: "\<forall>s\<in>set ss. StageName s \<noteq> Some ''Source''" by auto
  from stageBody_other [OF b ns] obtain d where
    e1: "execId v1 = execId v0" "revid v1 = revid v0" and
    w1: "written v1 = written v0 @ [d]" and
    r1: "resolvedAs cfg svc (execId v0) (revid v0) s d" and
    q1: "executionQueries (calls v1) =
           executionQueries (calls v0) @ filter (\<lambda>e. e \<noteq> execId v0) [executionId d]"
    by blast
  from Cons.IH [OF l nss] obtain ds where
    e2: "execId v = execId v1" "revid v = revid v1" and
    w2: "written v = written v1 @ ds" and
    r2: "list_all2 (resolvedAs cfg svc (execId v1) (revid v1)) ss ds" and
    q2: "executionQueries (calls v) =
           executionQueries (calls v1) @ filter (\<lambda>e. e \<noteq> execId v1) (map executionId ds)"
    by blast
  have "written v = written v0 @ (d # ds)" using w1 w2 by simp
  moreover have "list_all2 (resolvedAs cfg svc (execId v0) (revid v0)) (s # ss) (d # ds)"
    using r1 r2 e1 by simp
  moreover have "executionQueries (calls v) =
      executionQueries (calls v0) @ filter (\<lambda>e. e \<noteq> execId v0) (map executionId (d # ds))"
    using q1 q2 e1 by simp
  ultimately show ?case using e1 e2 by metis
qed

lemma report_unique_source:
  assumes run: "report cfg svc (pre @ src # post) = (v, None)"
      and src: "StageName src = Some ''Source''"
      and pre: "\<forall>s\<in>set pre. StageName s \<noteq> Some ''Source''"
      and post: "\<forall>s\<in>set post. StageName s \<noteq> Some ''Source''"
  shows "\<exists>v0 dsPre d dsPost.
           report cfg svc pre = (v0, None) \<and>
           written v0 = dsPre \<and> length dsPre = length pre \<and>
           written v = dsPre @ d # dsPost \<and>
           list_all2 (resolvedAs cfg svc [] []) pre dsPre \<and>
           actionsLoop (ActionStates src) [] = Inr (revid v) \<and>
           executionId d = execId v \<and>
           list_all2 (resolvedAs cfg svc (execId v) (revid v)) (src # post) (d # dsPost) \<and>
           executionQueries (calls v) =
             filter (\<lambda>e. e \<noteq> []) (map executionId dsPre) @
             filter (\<lambda>e. e \<noteq> execId v) (map executionId (d # dsPost))"
proof -
  from run obtain v0 where
    l0: "stagesLoop cfg svc pre initVars = (v0, None)" and
    l1: "stagesLoop cfg svc (src # post) v0 = (v, None)"
    unfolding report_def stagesLoop_append by (auto split: prod.splits option.splits)
  from l1 obtain v1 where
    b: "stageBody cfg svc src v0 = (v1, None)" and l2: "stagesLoop cfg svc post v1 = (v, None)"
    by (auto split: prod.splits option.splits)
  from stagesLoop_others [OF l0 pre] obtain dsPre where
    e0: "execId v0 = []" "revid v0 = []" and
    w0: "written v0 = dsPre" and
    r0: "list_all2 (resolvedAs cfg svc [] []) pre dsPre" and
    q0: "executionQueries (calls v0) = filter (\<lambda>e. e \<noteq> []) (map executionId dsPre)"
    by (auto simp: initVars_def)
  from stageBody_source [OF b src] obtain d where
    a1: "actionsLoop (ActionStates src) (revid v0) = Inr (revid v1)" and
    w1: "written v1 = written v0 @ [d]" and
    x1: "executionId d = execId v1" and
    r1: "resolvedAs cfg svc (execId v1) (revid v1) src d" and
    q1: "executionQueries (calls v1) = executionQueries (calls v0)"
    by blast
  from stagesLoop_others [OF l2 post] obtain dsPost where
    e2: "execId v = execId v1" "revid v = revid v1" and
    w2: "written v = written v1 @ dsPost" and
    r2: "list_all2 (resolvedAs cfg svc (execId v1) (revid v1)) post dsPost" and
    q2: "executionQueries (calls v) =
           executionQueries (calls v1) @ filter (\<lambda>e. e \<noteq> execId v1) (map executionId dsPost)"
    by blast
  have len: "length dsPre = length pre" using r0 by (simp add: list_all2_lengthD)
  have "report cfg svc pre = (v0, None)" using l0 by (simp add: report_def)
  moreover have "written v = dsPre @ d # dsPost" using w0 w1 w2 by simp
  moreover have "actionsLoop (ActionStates src) [] = Inr (revid v)" using a1 e0 e2 by simp
  moreover have "executionId d = execId v" using x1 e2 by simp
  moreover have "list_all2 (resolvedAs cfg svc (execId v) (revid v)) (src # post) (d # dsPost)"
    using r1 r2 e2 by simp
  moreover have "executionQueries (calls v) =
             filter (\<lambda>e. e \<noteq> []) (map executionId dsPre) @
             filter (\<lambda>e. e \<noteq> execId v) (map executionId (d # dsPost))"
    using q0 q1 q2 x1 e2 by simp
  ultimately show ?thesis using w0 len r0 by blast
qed

lemma consoleUrl_matches: "MatchString urlRe consoleUrl"
  by code_simp

lemma summary_matches:
  "MatchString revRe ''Amazon S3 version id: R0''"
  "MatchString revRe ''Amazon S3 version id: R1''"
  "MatchString revRe ''Amazon S3 version id: R9''"
  by code_simp+

lemma other_urls: "\<not> MatchString urlRe ''https://github.com/acme/app''"
  by code_simp

lemmas example_defs = exampleCfg_def liveAction_def stageAt_def s3Revision_def history_def store_def
  servicesOf_def exampleStore_def exampleHistory_def exampleStages_def

lemmas program_defs = report_def initVars_def stageBody_def sourcePart_def newDetails_def
  resolvePart_def fromExecution_def getMetadataFromRevision_def metadataPart_def Let_def

lemma example_run: "report exampleCfg exampleServices exampleStages = (exampleResult, None)"
  by (simp add: exampleServices_def exampleResult_def example_defs program_defs
        consoleUrl_matches summary_matches)

lemma describes_latestExecutionId:
  "describes stage d \<Longrightarrow> latestExecutionId stage = Some (executionId d)"
  by (auto simp: describes_def latestExecutionId_def split: option.splits)

lemma resolvedAs_describes: "resolvedAs cfg svc e r stage d \<Longrightarrow> describes stage d"
  by (simp add: resolvedAs_def)

lemma list_all2_latestExecutionId:
  "list_all2 describes ss ds \<Longrightarrow> map latestExecutionId ss = map (Some \<circ> executionId) ds"
  by (induction rule: list_all2_induct) (auto dest: describes_latestExecutionId)

lemma stageBody_describes:
  assumes "stageBody cfg svc stage v = (v', None)"
  shows "\<exists>d. written v' = written v @ [d] \<and> describes stage d"
proof -
  from stageBody_done [OF assms] obtain d0 d where
    "newDetails stage = Inr d0" "written v' = written v @ [d]"
    "name d = name d0" "executionId d = executionId d0" "status d = status d0"
    by blast
  then show ?thesis
    using newDetails_fields [of stage d0] by (auto simp: describes_def)
qed

lemma stagesLoop_describes:
  "stagesLoop cfg svc ss v0 = (v, None) \<Longrightarrow>
     \<exists>ds. written v = written v0 @ ds \<and> list_all2 describes ss ds"
proof (induction ss arbitrary: v0)
  case Nil
  then show ?case by simp
next
  case (Cons s ss)
  from Cons.prems obtain v1 where
    b: "stageBody cfg svc s v0 = (v1, None)" and l: "stagesLoop cfg svc ss v1 = (v, None)"
    by (auto split: prod.splits option.splits)
  from stageBody_describes [OF b] obtain d where
    d: "written v1 = written v0 @ [d]" "describes s d" by blast
  from Cons.IH [OF l] obtain ds where
    ds: "written v = written v1 @ ds" "list_all2 describes ss ds" by blast
  have "written v = written v0 @ (d # ds)" using d ds by simp
  moreover have "list_all2 describes (s # ss) (d # ds)" using d ds by simp
  ultimately show ?case by blast
qed

text \<open>
  Claim C9.  When the run over a snapshot completes without a fatal end, the rows written
  are exactly one per stage, in the order of the stages: the row at each position carries
  the name, the execution id and the status of the stage at that position.
\<close>

theorem report_one_record_per_stage:
  assumes "report cfg svc stages = (v, None)"
  shows "length (written v) = length stages \<and> list_all2 describes stages (written v)"
proof -
  from assms have "stagesLoop cfg svc stages initVars = (v, None)" by (simp add: report_def)
  from stagesLoop_describes [OF this] have "list_all2 describes stages (written v)"
    by (simp add: initVars_def)
  then show ?thesis by (simp add: list_all2_lengthD)
qed

theorem report_one_record_per_stage_witness:
  "report exampleCfg exampleServices exampleStages = (exampleResult, None) \<and>
   length (written exampleResult) = length exampleStages \<and>
   list_all2 describes exampleStages (written exampleResult)"
  using report_one_record_per_stage [OF example_run] example_run by simp

text \<open>
  Claim C1, as the program has it.  In a completed run over a snapshot with exactly one
  stage named Source, the tracked execution id is the latest execution id of that stage
  and the live revision is what the scan of its actions gives.  Every stage from the
  Source stage on has the live revision as its revision id when its execution id equals
  the tracked one, and otherwise the revision id that the query of its own execution id
  gives.  A stage ahead of the Source stage is compared with the empty execution id the
  variables start with.
\<close>

theorem revision_current_iff_epoch_from_source_on:
  assumes "report cfg svc (pre @ src # post) = (v, None)"
      and "StageName src = Some ''Source''"
      and "\<forall>s\<in>set pre. StageName s \<noteq> Some ''Source''"
      and "\<forall>s\<in>set post. StageName s \<noteq> Some ''Source''"
  shows "latestExecutionId src = Some (execId v) \<and>
         actionsLoop (ActionStates src) [] = Inr (revid v) \<and>
         list_all2 (resolvedAs cfg svc (execId v) (revid v)) (src # post)
           (drop (length pre) (written v)) \<and>
         list_all2 (resolvedAs cfg svc [] []) pre (take (length pre) (written v))"
proof -
  from report_unique_source [OF assms] obtain dsPre d dsPost where
    len: "length dsPre = length pre" and
    w: "written v = dsPre @ d # dsPost" and
    r0: "list_all2 (resolvedAs cfg svc [] []) pre dsPre" and
    a: "actionsLoop (ActionStates src) [] = Inr (revid v)" and
    x: "executionId d = execId v" and
    r1: "list_all2 (resolvedAs cfg svc (execId v) (revid v)) (src # post) (d # dsPost)"
    by blast
  from r1 have "describes src d" by (simp add: resolvedAs_def)
  then have "latestExecutionId src = Some (execId v)"
    using x by (simp add: describes_latestExecutionId)
  then show ?thesis using len w r0 a r1 by simp
qed

theorem revision_current_iff_epoch_from_source_on_witness:
  "report exampleCfg exampleServices ([] @ stageAt ''Source'' ''E1'' [liveAction ''R1'']
       # [stageAt ''Build'' ''E1'' [], stageAt ''Deploy'' ''E0'' []]) = (exampleResult, None) \<and>
   latestExecutionId (stageAt ''Source'' ''E1'' [liveAction ''R1'']) = Some ''E1'' \<and>
   list_all2 (resolvedAs exampleCfg exampleServices ''E1'' ''R1'')
     [stageAt ''Source'' ''E1'' [liveAction ''R1''], stageAt ''Build'' ''E1'' [],
      stageAt ''Deploy'' ''E0'' []]
     (written exampleResult)"
proof -
  have run: "report exampleCfg exampleServices ([] @ stageAt ''Source'' ''E1'' [liveAction ''R1'']
       # [stageAt ''Build'' ''E1'' [], stageAt ''Deploy'' ''E0'' []]) = (exampleResult, None)"
    using example_run by (simp add: exampleStages_def)
  have src: "StageName (stageAt ''Source'' ''E1'' [liveAction ''R1'']) = Some ''Source''"
    by (simp add: stageAt_def)
  have pre: "\<forall>s\<in>set []. StageName s \<noteq> Some ''Source''" by simp
  have post: "\<forall>s\<in>set [stageAt ''Build'' ''E1'' [], stageAt ''Deploy'' ''E0'' []].
                StageName s \<noteq> Some ''Source''"
    by (simp add: stageAt_def)
  from revision_current_iff_epoch_from_source_on [OF run src pre post] run
  show ?thesis by (simp add: exampleResult_def)
qed

text \<open>
  A snapshot where the Deploy stage comes ahead of the Source stage, both of execution
  E1: the Deploy stage is not given the live revision R1 but the one of a query of E1.
\<close>

theorem revision_current_iff_epoch_counterexample:
  "report exampleCfg (servicesOf staleHistory exampleStore) deployFirst =
     (\<lparr>execId = ''E1'', revid = ''R1'',
       written =
         [\<lparr>name = ''Deploy'', executionId = ''E1'', status = ''Succeeded'', revisionId = ''R0'',
           versionDeployed = ''2.2.0'', commit = ''99f0aa''\<rparr>,
          \<lparr>name = ''Source'', executionId = ''E1'', status = ''Succeeded'', revisionId = ''R1'',
           versionDeployed = ''2.3.0'', commit = ''abc123''\<rparr>],
       calls =
         [ExecutionQuery ''pipe'' ''E1'', MetadataQuery ''artifacts'' ''version.zip'' ''R0'',
          MetadataQuery ''artifacts'' ''version.zip'' ''R1'']\<rparr>, None)"
  by (simp add: deployFirst_def staleHistory_def example_defs program_defs
        consoleUrl_matches summary_matches)

lemma filter_Some_map:
  "filter (\<lambda>e. e \<noteq> Some x) (map (Some \<circ> f) ds) = map Some (filter (\<lambda>e. e \<noteq> x) (map f ds))"
  by (induction ds) auto

text \<open>
  Claim C5, as the program has it.  In a completed run over a snapshot with exactly one
  stage named Source, the execution ids queried are, in order: the execution id of each
  stage ahead of the Source stage unless it is empty, then the execution id of each stage
  from the Source stage on that differs from the tracked one.  So from the Source stage
  on, a stage of the tracked execution costs no query and any other stage exactly one.
\<close>

theorem one_query_per_other_execution:
  assumes "report cfg svc (pre @ src # post) = (v, None)"
      and "StageName src = Some ''Source''"
      and "\<forall>s\<in>set pre. StageName s \<noteq> Some ''Source''"
      and "\<forall>s\<in>set post. StageName s \<noteq> Some ''Source''"
  shows "latestExecutionId src = Some (execId v) \<and>
         map Some (executionQueries (calls v)) =
           filter (\<lambda>e. e \<noteq> Some []) (map latestExecutionId pre) @
           filter (\<lambda>e. e \<noteq> Some (execId v)) (map latestExecutionId (src # post))"
proof -
  from report_unique_source [OF assms] obtain dsPre d dsPost where
    r0: "list_all2 (resolvedAs cfg svc [] []) pre dsPre" and
    x: "executionId d = execId v" and
    r1: "list_all2 (resolvedAs cfg svc (execId v) (revid v)) (src # post) (d # dsPost)" and
    q: "executionQueries (calls v) =
             filter (\<lambda>e. e \<noteq> []) (map executionId dsPre) @
             filter (\<lambda>e. e \<noteq> execId v) (map executionId (d # dsPost))"
    by blast
  have d0: "list_all2 describes pre dsPre"
    using r0 by (rule list_all2_mono) (rule resolvedAs_describes)
  have d1: "list_all2 describes (src # post) (d # dsPost)"
    using r1 by (rule list_all2_mono) (rule resolvedAs_describes)
  have m0: "map latestExecutionId pre = map (Some \<circ> executionId) dsPre"
    using d0 by (rule list_all2_latestExecutionId)
  have m1: "map latestExecutionId (src # post) = map (Some \<circ> executionId) (d # dsPost)"
    using d1 by (rule list_all2_latestExecutionId)
  have "latestExecutionId src = Some (execId v)" using m1 x by simp
  moreover have "map Some (executionQueries (calls v)) =
           filter (\<lambda>e. e \<noteq> Some []) (map latestExecutionId pre) @
           filter (\<lambda>e. e \<noteq> Some (execId v)) (map latestExecutionId (src # post))"
    unfolding m0 m1 filter_Some_map q by simp
  ultimately show ?thesis by simp
qed

theorem one_query_per_other_execution_witness:
  "report exampleCfg exampleServices ([] @ stageAt ''Source'' ''E1'' [liveAction ''R1'']
       # [stageAt ''Build'' ''E1'' [], stageAt ''Deploy'' ''E0'' []]) = (exampleResult, None) \<and>
   execId exampleResult = ''E1'' \<and>
   executionQueries (calls exampleResult) = [''E0'']"
proof -
  have run: "report exampleCfg exampleServices ([] @ stageAt ''Source'' ''E1'' [liveAction ''R1'']
       # [stageAt ''Build'' ''E1'' [], stageAt ''Deploy'' ''E0'' []]) = (exampleResult, None)"
    using example_run by (simp add: exampleStages_def)
  have src: "StageName (stageAt ''Source'' ''E1'' [liveAction ''R1'']) = Some ''Source''"
    by (simp add: stageAt_def)
  have pre: "\<forall>s\<in>set []. StageName s \<noteq> Some ''Source''" by simp
  have post: "\<forall>s\<in>set [stageAt ''Build'' ''E1'' [], stageAt ''Deploy'' ''E0'' []].
                StageName s \<noteq> Some ''Source''"
    by (simp add: stageAt_def)
  from one_query_per_other_execution [OF run src pre post] run
  show ?thesis by (simp add: exampleResult_def stageAt_def latestExecutionId_def)
qed

text \<open>
  With the Deploy stage ahead of the Source stage and both of execution E1, one query is
  made, for E1, the execution that the run tracks.
\<close>

theorem query_for_current_execution_counterexample:
  "execId (fst (report exampleCfg (servicesOf exampleHistory exampleStore) deployFirst)) = ''E1'' \<and>
   map latestExecutionId deployFirst = [Some ''E1'', Some ''E1''] \<and>
   snd (report exampleCfg (servicesOf exampleHistory exampleStore) deployFirst) = None \<and>
   executionQueries (calls (fst (report exampleCfg (servicesOf exampleHistory exampleStore) deployFirst)))
     = [''E1'']"
  by (simp add: deployFirst_def latestExecutionId_def example_defs program_defs
        consoleUrl_matches summary_matches)

lemma actionsLoop_fatal: "actionsLoop acts rv = Inl f \<Longrightarrow> f = NilDereference"
  by (induction acts) (auto split: option.splits if_splits)

lemma sourcePart_never_run:
  assumes "StageName stage = Some ''Source''" and "latestExecutionId stage = None"
  shows "sourcePart stage v = Inl NilDereference"
proof (cases "actionsLoop (ActionStates stage) (revid v)")
  case (Inl f)
  then show ?thesis
    using assms(1) actionsLoop_fatal [OF Inl] by (simp add: sourcePart_def)
next
  case (Inr r)
  then show ?thesis
    using assms by (auto simp: sourcePart_def latestExecutionId_def split: option.splits)
qed

lemma stageBody_vars:
  assumes "stageBody cfg svc stage v = (v', res)"
  shows "(\<forall>f. sourcePart stage v = Inl f \<longrightarrow> v' = v \<and> res = Some f) \<and>
         (\<forall>v1. sourcePart stage v = Inr v1 \<longrightarrow> execId v' = execId v1 \<and> revid v' = revid v1)"
proof (cases "sourcePart stage v")
  case (Inl f)
  then show ?thesis using assms by (simp add: stageBody_def)
next
  case sp: (Inr v1)
  show ?thesis
  proof (cases "newDetails stage")
    case (Inl f)
    then show ?thesis using assms sp by (simp add: stageBody_def)
  next
    case nd: (Inr d0)
    obtain v2 r where rp: "resolvePart cfg svc d0 v1 = (v2, r)"
      by (cases "resolvePart cfg svc d0 v1")
    note rr = resolvePart_result [OF rp]
    show ?thesis
    proof (cases r)
      case (Inl f)
      then show ?thesis using assms sp rp rr unfolding stageBody_steps [OF sp nd] by auto
    next
      case (Inr rid)
      with assms rp have "metadataPart cfg svc (d0\<lparr>revisionId := rid\<rparr>) v2 = (v', res)"
        unfolding stageBody_steps [OF sp nd] by simp
      from metadataPart_result [OF this] rr sp show ?thesis by simp
    qed
  qed
qed

lemma stageBody_other_vars:
  assumes "stageBody cfg svc stage v = (v', res)" and "StageName stage \<noteq> Some ''Source''"
  shows "execId v' = execId v \<and> revid v' = revid v"
proof (cases "sourcePart stage v")
  case (Inl f)
  then show ?thesis using stageBody_vars [OF assms(1)] by simp
next
  case (Inr v1)
  then show ?thesis
    using stageBody_vars [OF assms(1)] sourcePart_other [OF assms(2) Inr] by simp
qed

lemma stagesLoop_other_vars:
  assumes "stagesLoop cfg svc ss v0 = (v, res)"
      and "\<forall>s\<in>set ss. StageName s \<noteq> Some ''Source''"
  shows "execId v = execId v0 \<and> revid v = revid v0"
  using assms
proof (induction ss arbitrary: v0)
  case Nil
  then show ?case by simp
next
  case (Cons s ss)
  obtain v1 r1 where b: "stageBody cfg svc s v0 = (v1, r1)" by (cases "stageBody cfg svc s v0")
  from Cons.prems(2) have ns: "StageName s \<noteq> Some ''Source''" by simp
  note e1 = stageBody_other_vars [OF b ns]
  show ?case
  proof (cases r1)
    case None
    with b Cons.prems(1) have "stagesLoop cfg svc ss v1 = (v, res)" by simp
    from Cons.IH [OF this] Cons.prems(2) e1 show ?thesis by simp
  next
    case (Some f)
    with b Cons.prems(1) have "v = v1" by simp
    then show ?thesis using e1 by simp
  qed
qed

text \<open>
  Claim C7, as the program has it.  Take a snapshot with exactly one stage named Source
  and a run that reaches that stage.  When the scan of its actions returns and the stage
  has a latest execution id, that id is the tracked execution id at the end of the run,
  however the run ends.  When the stage has no latest execution id, the run ends there in
  the panic of a nil dereference, with no row written for the stage.
\<close>

theorem epoch_is_source_execution:
  assumes src: "StageName src = Some ''Source''"
      and pre: "\<forall>s\<in>set pre. StageName s \<noteq> Some ''Source''"
      and post: "\<forall>s\<in>set post. StageName s \<noteq> Some ''Source''"
      and reach: "report cfg svc pre = (v0, None)"
      and run: "report cfg svc (pre @ src # post) = (v, res)"
  shows "(\<forall>r e. actionsLoop (ActionStates src) [] = Inr r \<and> latestExecutionId src = Some e
            \<longrightarrow> execId v = e) \<and>
         (latestExecutionId src = None \<longrightarrow> res = Some NilDereference \<and> v = v0)"
proof -
  from reach have l0: "stagesLoop cfg svc pre initVars = (v0, None)" by (simp add: report_def)
  from run l0 have l1: "stagesLoop cfg svc (src # post) v0 = (v, res)"
    by (simp add: report_def stagesLoop_append)
  from stagesLoop_other_vars [OF l0 pre] have r0: "revid v0 = []" by (simp add: initVars_def)
  obtain v1 r1 where b: "stageBody cfg svc src v0 = (v1, r1)"
    by (cases "stageBody cfg svc src v0")
  note sv = stageBody_vars [OF b]
  have A: "execId v = e" if a: "actionsLoop (ActionStates src) [] = Inr r"
    and le: "latestExecutionId src = Some e" for r e
  proof -
    have sp: "sourcePart src v0 = Inr (v0\<lparr>revid := r, execId := e\<rparr>)"
      using a le src r0 by (auto simp: sourcePart_def latestExecutionId_def split: option.splits)
    with sv have e1: "execId v1 = e" by simp
    show ?thesis
    proof (cases r1)
      case None
      with b l1 have "stagesLoop cfg svc post v1 = (v, res)" by simp
      from stagesLoop_other_vars [OF this post] e1 show ?thesis by simp
    next
      case (Some f)
      with b l1 have "v = v1" by simp
      then show ?thesis using e1 by simp
    qed
  qed
  have B: "res = Some NilDereference \<and> v = v0" if le: "latestExecutionId src = None"
  proof -
    have sp: "sourcePart src v0 = Inl NilDereference"
      using src le by (rule sourcePart_never_run)
    with sv have "v1 = v0" "r1 = Some NilDereference" by simp_all
    with b l1 show ?thesis by simp
  qed
  from A B show ?thesis by blast
qed

theorem epoch_is_source_execution_witness:
  "report exampleCfg exampleServices [] = (initVars, None) \<and>
   report exampleCfg exampleServices ([] @ stageAt ''Source'' ''E1'' [liveAction ''R1'']
       # [stageAt ''Build'' ''E1'' [], stageAt ''Deploy'' ''E0'' []]) = (exampleResult, None) \<and>
   actionsLoop (ActionStates (stageAt ''Source'' ''E1'' [liveAction ''R1''])) [] = Inr ''R1'' \<and>
   latestExecutionId (stageAt ''Source'' ''E1'' [liveAction ''R1'']) = Some ''E1'' \<and>
   execId exampleResult = ''E1''"
proof -
  have run: "report exampleCfg exampleServices ([] @ stageAt ''Source'' ''E1'' [liveAction ''R1'']
       # [stageAt ''Build'' ''E1'' [], stageAt ''Deploy'' ''E0'' []]) = (exampleResult, None)"
    using example_run by (simp add: exampleStages_def)
  have reach: "report exampleCfg exampleServices [] = (initVars, None)"
    by (simp add: report_def)
  have src: "StageName (stageAt ''Source'' ''E1'' [liveAction ''R1'']) = Some ''Source''"
    by (simp add: stageAt_def)
  have pre: "\<forall>s\<in>set []. StageName s \<noteq> Some ''Source''" by simp
  have post: "\<forall>s\<in>set [stageAt ''Build'' ''E1'' [], stageAt ''Deploy'' ''E0'' []].
                StageName s \<noteq> Some ''Source''"
    by (simp add: stageAt_def)
  have scan: "actionsLoop (ActionStates (stageAt ''Source'' ''E1'' [liveAction ''R1''])) [] = Inr ''R1''"
    by (simp add: stageAt_def liveAction_def consoleUrl_matches)
  have le: "latestExecutionId (stageAt ''Source'' ''E1'' [liveAction ''R1'']) = Some ''E1''"
    by (simp add: stageAt_def latestExecutionId_def)
  from epoch_is_source_execution [OF src pre post reach run] scan le
  have "execId exampleResult = ''E1''" by blast
  with run reach scan le show ?thesis by simp
qed

text \<open>
  A Source stage that has never run: the run ends in the panic, not in a reported error.
\<close>

theorem absent_execution_id_counterexample:
  "report exampleCfg exampleServices [neverRun] = (initVars, Some NilDereference)"
  by (simp add: neverRun_def example_defs program_defs consoleUrl_matches)

lemma actionsLoop_passedOver:
  "\<forall>a\<in>set pre. passedOver a \<Longrightarrow> actionsLoop (pre @ rest) rv = actionsLoop rest rv"
  by (induction pre) (auto simp: passedOver_def split: option.splits)

lemma actionsLoop_matching:
  "matching a \<Longrightarrow>
     actionsLoop (a # post) rv =
       (case revisionOf a of None \<Rightarrow> Inl NilDereference | Some r \<Rightarrow> Inr r)"
  by (auto simp: matching_def revisionOf_def split: option.splits)

lemma actionsLoop_no_url:
  "EntityUrl a = None \<Longrightarrow> actionsLoop (a # post) rv = Inl NilDereference"
  by simp

text \<open>
  Claim C6, as the program has it.  The scan of the source stage's actions goes in list
  order, over actions whose URLs are present and do not match, up to the first action
  that is not such.  When that action has a matching URL and a revision id, the scan
  returns that revision id whatever follows.  When it has a matching URL and no current
  revision, or one with no revision id, or when it has no URL at all, the scan ends in
  the panic of a nil dereference.  When there is no such action, so that every URL is
  present and none matches, the scan returns the revision id the run starts with, which
  is empty.
\<close>

theorem actionsLoop_first_match:
  assumes "\<forall>a\<in>set pre. passedOver a"
  shows "(matching a \<and> revisionOf a = Some r \<longrightarrow> actionsLoop (pre @ a # post) rv = Inr r) \<and>
         (matching a \<and> revisionOf a = None \<longrightarrow>
            actionsLoop (pre @ a # post) rv = Inl NilDereference) \<and>
         (EntityUrl a = None \<longrightarrow> actionsLoop (pre @ a # post) rv = Inl NilDereference) \<and>
         actionsLoop pre (revid initVars) = Inr []"
proof -
  have skip: "actionsLoop (pre @ a # post) rv = actionsLoop (a # post) rv"
    using assms by (rule actionsLoop_passedOver)
  have "actionsLoop (pre @ []) (revid initVars) = actionsLoop [] (revid initVars)"
    using assms by (rule actionsLoop_passedOver)
  then have none: "actionsLoop pre (revid initVars) = Inr []" by (simp add: initVars_def)
  have at: "actionsLoop (pre @ a # post) rv =
      (case revisionOf a of None \<Rightarrow> Inl NilDereference | Some r \<Rightarrow> Inr r)" if m: "matching a"
  proof -
    note skip
    also have "actionsLoop (a # post) rv =
        (case revisionOf a of None \<Rightarrow> Inl NilDereference | Some r \<Rightarrow> Inr r)"
      using m by (rule actionsLoop_matching)
    finally show ?thesis .
  qed
  have nourl: "actionsLoop (pre @ a # post) rv = Inl NilDereference" if u: "EntityUrl a = None"
  proof -
    note skip
    also have "actionsLoop (a # post) rv = Inl NilDereference"
      using u by (rule actionsLoop_no_url)
    finally show ?thesis .
  qed
  show ?thesis using none at nourl by simp
qed

theorem actionsLoop_first_match_witness:
  "passedOver otherAction \<and> matching (liveAction ''R1'') \<and>
   revisionOf (liveAction ''R1'') = Some ''R1'' \<and>
   actionsLoop ([otherAction] @ liveAction ''R1'' # [liveAction ''R9'']) [] = Inr ''R1'' \<and>
   actionsLoop [otherAction] (revid initVars) = Inr []"
proof -
  have p: "\<forall>a\<in>set [otherAction]. passedOver a"
    by (simp add: passedOver_def otherAction_def other_urls)
  have m: "matching (liveAction ''R1'')"
    by (simp add: matching_def liveAction_def consoleUrl_matches)
  have r: "revisionOf (liveAction ''R1'') = Some ''R1''"
    by (simp add: revisionOf_def liveAction_def)
  from actionsLoop_first_match [OF p, of "liveAction ''R1''" "''R1''" "[liveAction ''R9'']" "[]"]
    p m r
  show ?thesis by simp
qed

text \<open>
  Two lists of actions whose first action with a matching URL and a revision id is the
  second one, of revision R1.  In the first list the action ahead of it has a matching
  URL and no current revision, in the second it has no URL: the scan returns nothing and
  ends in the panic.
\<close>

theorem scan_panics_counterexample:
  "matching bareAction \<and> revisionOf bareAction = None \<and>
   matching (liveAction ''R1'') \<and> revisionOf (liveAction ''R1'') = Some ''R1'' \<and>
   actionsLoop [bareAction, liveAction ''R1''] (revid initVars) = Inl NilDereference \<and>
   EntityUrl noUrlAction = None \<and>
   actionsLoop [noUrlAction, liveAction ''R1''] (revid initVars) = Inl NilDereference \<and>
   report exampleCfg exampleServices [stageAt ''Source'' ''E1'' [bareAction, liveAction ''R1'']]
     = (initVars, Some NilDereference)"
  by (simp add: matching_def revisionOf_def bareAction_def noUrlAction_def liveAction_def
        stageAt_def program_defs consoleUrl_matches)

text \<open>
  Claim C10, as the program has it.  The first action of the source stage whose URL
  matches is dereferenced without a check: when it carries no current revision, or one
  with no revision id, the iteration ends in the panic of a nil dereference and nothing
  is reported; when it carries a revision id, the scan returns it.  Actions after the
  first match are never read.
\<close>

theorem first_matching_action_dereferenced:
  assumes "\<forall>a\<in>set pre. passedOver a" and "matching a"
      and "StageName stage = Some ''Source''" and "ActionStates stage = pre @ a # post"
  shows "(revisionOf a = None \<longrightarrow>
            actionsLoop (pre @ a # post) rv = Inl NilDereference \<and>
            stageBody cfg svc stage v = (v, Some NilDereference)) \<and>
         (\<forall>r. revisionOf a = Some r \<longrightarrow> actionsLoop (pre @ a # post) rv = Inr r)"
proof -
  have scan: "actionsLoop (pre @ a # post) rv' =
      (case revisionOf a of None \<Rightarrow> Inl NilDereference | Some r \<Rightarrow> Inr r)" for rv'
  proof -
    have "actionsLoop (pre @ a # post) rv' = actionsLoop (a # post) rv'"
      using assms(1) by (rule actionsLoop_passedOver)
    also have "\<dots> = (case revisionOf a of None \<Rightarrow> Inl NilDereference | Some r \<Rightarrow> Inr r)"
      using assms(2) by (rule actionsLoop_matching)
    finally show ?thesis .
  qed
  have "stageBody cfg svc stage v = (v, Some NilDereference)" if "revisionOf a = None"
  proof -
    have "sourcePart stage v = Inl NilDereference"
      using assms(3,4) scan [of "revid v"] that by (simp add: sourcePart_def)
    then show ?thesis by (simp add: stageBody_def)
  qed
  then show ?thesis using scan [of rv] by simp
qed

theorem first_matching_action_dereferenced_witness:
  "passedOver otherAction \<and> matching bareAction \<and> revisionOf bareAction = None \<and>
   actionsLoop ([otherAction] @ bareAction # [liveAction ''R1'']) [] = Inl NilDereference \<and>
   stageBody exampleCfg exampleServices
     (stageAt ''Source'' ''E1'' [otherAction, bareAction, liveAction ''R1'']) initVars
     = (initVars, Some NilDereference)"
proof -
  have p: "\<forall>a\<in>set [otherAction]. passedOver a"
    by (simp add: passedOver_def otherAction_def other_urls)
  have m: "matching bareAction"
    by (simp add: matching_def bareAction_def consoleUrl_matches)
  have r: "revisionOf bareAction = None"
    by (simp add: revisionOf_def bareAction_def)
  have n: "StageName (stageAt ''Source'' ''E1'' [otherAction, bareAction, liveAction ''R1''])
             = Some ''Source''"
    by (simp add: stageAt_def)
  have a: "ActionStates (stageAt ''Source'' ''E1'' [otherAction, bareAction, liveAction ''R1''])
             = [otherAction] @ bareAction # [liveAction ''R1'']"
    by (simp add: stageAt_def)
  from first_matching_action_dereferenced [OF p m n a, of "[]" exampleCfg exampleServices initVars]
    p m r
  show ?thesis by simp
qed

text \<open>
  A source stage whose second matching action carries no current revision: the scan
  leaves at the first match, and the run completes.
\<close>

theorem later_matching_action_counterexample:
  "matching bareAction \<and> revisionOf bareAction = None \<and>
   report exampleCfg exampleServices [stageAt ''Source'' ''E1'' [liveAction ''R1'', bareAction]] =
     (\<lparr>execId = ''E1'', revid = ''R1'',
       written = [\<lparr>name = ''Source'', executionId = ''E1'', status = ''Succeeded'',
                   revisionId = ''R1'', versionDeployed = ''2.3.0'', commit = ''abc123''\<rparr>],
       calls = [MetadataQuery ''artifacts'' ''version.zip'' ''R1'']\<rparr>, None)"
  by (simp add: matching_def revisionOf_def bareAction_def exampleServices_def example_defs
        program_defs consoleUrl_matches)

text \<open>
  Claim C2, at an execution with two revisions whose summaries match, R0 then R9: the
  scan of lines 142 to 146 does not leave at the first match, and the revision id that
  results is R9, the last one, where the claim has R0.
\<close>

theorem revisionsLoop_last_match:
  "GetPipelineExecution (servicesOf twoSources exampleStore) ''pipe'' ''E0'' =
     Inr \<lparr>PipelineExecutionOf = Some \<lparr>ArtifactRevisions =
       [\<lparr>ArtifactRevisionId = Some ''R0'', RevisionSummary = Some ''Amazon S3 version id: R0''\<rparr>,
        \<lparr>ArtifactRevisionId = Some ''R9'', RevisionSummary = Some ''Amazon S3 version id: R9''\<rparr>]\<rparr>\<rparr> \<and>
   MatchString revRe ''Amazon S3 version id: R0'' \<and>
   MatchString revRe ''Amazon S3 version id: R9'' \<and>
   fromExecution exampleCfg (servicesOf twoSources exampleStore) ''E0'' [] = Inr ''R9''"
  by (simp add: twoSources_def fromExecution_def example_defs summary_matches)

lemma stageBody_calls:
  assumes "stageBody cfg svc stage v = (v', res)"
  shows "\<exists>cs. calls v' = calls v @ cs"
proof (cases "sourcePart stage v")
  case (Inl f)
  then show ?thesis using assms by (simp add: stageBody_def)
next
  case sp: (Inr v1)
  note fr = sourcePart_frame [OF sp]
  show ?thesis
  proof (cases "newDetails stage")
    case (Inl f)
    then show ?thesis using assms sp fr by (simp add: stageBody_def)
  next
    case nd: (Inr d0)
    obtain v2 r where rp: "resolvePart cfg svc d0 v1 = (v2, r)"
      by (cases "resolvePart cfg svc d0 v1")
    from resolvePart_result [OF rp] fr obtain cs2 where c2: "calls v2 = calls v @ cs2"
      by (auto split: if_splits)
    show ?thesis
    proof (cases r)
      case (Inl f)
      then show ?thesis using assms rp c2 unfolding stageBody_steps [OF sp nd] by auto
    next
      case (Inr rid)
      with assms rp have "metadataPart cfg svc (d0\<lparr>revisionId := rid\<rparr>) v2 = (v', res)"
        unfolding stageBody_steps [OF sp nd] by simp
      from metadataPart_result [OF this] c2 show ?thesis by simp
    qed
  qed
qed

lemma stagesLoop_calls:
  "stagesLoop cfg svc ss v0 = (v, res) \<Longrightarrow> \<exists>cs. calls v = calls v0 @ cs"
proof (induction ss arbitrary: v0)
  case Nil
  then show ?case by simp
next
  case (Cons s ss)
  obtain v1 r1 where b: "stageBody cfg svc s v0 = (v1, r1)" by (cases "stageBody cfg svc s v0")
  from stageBody_calls [OF b] obtain cs1 where c1: "calls v1 = calls v0 @ cs1" by blast
  show ?case
  proof (cases r1)
    case None
    with b Cons.prems have "stagesLoop cfg svc ss v1 = (v, res)" by simp
    from Cons.IH [OF this] c1 show ?thesis by auto
  next
    case (Some f)
    with b Cons.prems have "v = v1" by simp
    then show ?thesis using c1 by simp
  qed
qed

lemma resolvePart_same:
  assumes "resolvePart cfg svc d v = (v2, r)"
      and "\<forall>c\<in>set (calls v2). sameResponse svc svc' c"
  shows "resolvePart cfg svc' d v = (v2, r)"
  using assms
  by (auto simp: resolvePart_def fromExecution_def sameResponse_def split: if_splits)

lemma metadataPart_same:
  assumes "metadataPart cfg svc d v = (v3, res)"
      and "\<forall>c\<in>set (calls v3). sameResponse svc svc' c"
  shows "metadataPart cfg svc' d v = (v3, res)"
proof -
  from metadataPart_result [OF assms(1)]
  have "MetadataQuery (Bucket cfg) (Key cfg) (revisionId d) \<in> set (calls v3)" by simp
  with assms(2) have "HeadObject svc' (Bucket cfg) (Key cfg) (revisionId d) =
      HeadObject svc (Bucket cfg) (Key cfg) (revisionId d)"
    by (auto simp: sameResponse_def)
  then have "metadataPart cfg svc' d v = metadataPart cfg svc d v"
    by (simp add: metadataPart_def getMetadataFromRevision_def)
  with assms(1) show ?thesis by simp
qed

lemma stageBody_same:
  assumes "stageBody cfg svc stage v = (v', res)"
      and "\<forall>c\<in>set (calls v'). sameResponse svc svc' c"
  shows "stageBody cfg svc' stage v = (v', res)"
proof (cases "sourcePart stage v")
  case (Inl f)
  then show ?thesis using assms(1) by (simp add: stageBody_def)
next
  case sp: (Inr v1)
  show ?thesis
  proof (cases "newDetails stage")
    case (Inl f)
    then show ?thesis using assms(1) sp by (simp add: stageBody_def)
  next
    case nd: (Inr d0)
    obtain v2 r where rp: "resolvePart cfg svc d0 v1 = (v2, r)"
      by (cases "resolvePart cfg svc d0 v1")
    show ?thesis
    proof (cases r)
      case (Inl f)
      with assms(1) rp have e: "v' = v2" "res = Some f"
        unfolding stageBody_steps [OF sp nd] by simp_all
      from resolvePart_same [OF rp] assms(2) e have "resolvePart cfg svc' d0 v1 = (v2, r)"
        by simp
      then show ?thesis using Inl e unfolding stageBody_steps [OF sp nd] by simp
    next
      case (Inr rid)
      with assms(1) rp have mp: "metadataPart cfg svc (d0\<lparr>revisionId := rid\<rparr>) v2 = (v', res)"
        unfolding stageBody_steps [OF sp nd] by simp
      from metadataPart_result [OF mp] have "set (calls v2) \<subseteq> set (calls v')" by auto
      with assms(2) have "\<forall>c\<in>set (calls v2). sameResponse svc svc' c" by blast
      from resolvePart_same [OF rp this] have rp': "resolvePart cfg svc' d0 v1 = (v2, r)" .
      from metadataPart_same [OF mp assms(2)] rp' Inr
      show ?thesis unfolding stageBody_steps [OF sp nd] by simp
    qed
  qed
qed

lemma stagesLoop_same:
  assumes "stagesLoop cfg svc ss v0 = (v, res)"
      and "\<forall>c\<in>set (calls v). sameResponse svc svc' c"
  shows "stagesLoop cfg svc' ss v0 = (v, res)"
  using assms
proof (induction ss arbitrary: v0)
  case Nil
  then show ?case by simp
next
  case (Cons s ss)
  obtain v1 r1 where b: "stageBody cfg svc s v0 = (v1, r1)" by (cases "stageBody cfg svc s v0")
  show ?case
  proof (cases r1)
    case None
    with b Cons.prems(1) have l: "stagesLoop cfg svc ss v1 = (v, res)" by simp
    from stagesLoop_calls [OF l] have "set (calls v1) \<subseteq> set (calls v)" by auto
    with Cons.prems(2) have "\<forall>c\<in>set (calls v1). sameResponse svc svc' c" by blast
    from stageBody_same [OF b this] Cons.IH [OF l Cons.prems(2)] None
    show ?thesis by simp
  next
    case (Some f)
    with b Cons.prems(1) have e: "v = v1" "res = Some f" by simp_all
    from stageBody_same [OF b] Cons.prems(2) e have "stageBody cfg svc' s v0 = (v1, r1)" by simp
    then show ?thesis using Some e by simp
  qed
qed

text \<open>
  Claim C8.  Two runs over the same snapshot, with services that give the same response
  to every call the first run makes, end the same way with the same rows, the same
  variables and the same calls.
\<close>

theorem report_same_responses:
  assumes "report cfg svc stages = (v, res)"
      and "\<forall>c\<in>set (calls v). sameResponse svc svc' c"
  shows "report cfg svc' stages = (v, res)"
  using assms unfolding report_def by (rule stagesLoop_same)

theorem report_same_responses_witness:
  "report exampleCfg exampleServices exampleStages = (exampleResult, None) \<and>
   list_all (sameResponse exampleServices (servicesOf longerHistory exampleStore))
     (calls exampleResult) \<and>
   report exampleCfg (servicesOf longerHistory exampleStore) exampleStages = (exampleResult, None)"
proof -
  have same: "\<forall>c\<in>set (calls exampleResult).
      sameResponse exampleServices (servicesOf longerHistory exampleStore) c"
    by (simp add: exampleResult_def sameResponse_def exampleServices_def longerHistory_def
          servicesOf_def history_def exampleHistory_def)
  from report_same_responses [OF example_run same] example_run same
  show ?thesis by (simp add: list_all_iff)
qed

lemma metadataQueries_append [simp]:
  "metadataQueries (xs @ ys) = metadataQueries xs @ metadataQueries ys"
  by (simp add: metadataQueries_def)

lemma metadataQueries_simps [simp]:
  "metadataQueries [] = []"
  "metadataQueries (ExecutionQuery p e # cs) = metadataQueries cs"
  "metadataQueries (MetadataQuery b k r # cs) = r # metadataQueries cs"
  by (simp_all add: metadataQueries_def)

lemma lacking_not_complete: "lacking cfg svc r \<Longrightarrow> \<not> complete cfg svc r"
  by (auto simp: lacking_def complete_def split: sum.splits)

lemma metadataPart_lookup:
  assumes "metadataPart cfg svc d v = (v3, res)"
  shows "metadataQueries (calls v3) = metadataQueries (calls v) @ [revisionId d] \<and>
         (case res of
            None \<Rightarrow> complete cfg svc (revisionId d) \<and>
                    (\<exists>d'. written v3 = written v @ [d'] \<and> revisionId d' = revisionId d)
          | Some f \<Rightarrow> written v3 = written v \<and>
                      (lacking cfg svc (revisionId d) \<longrightarrow> f = NilDereference))"
  using assms unfolding metadataPart_def getMetadataFromRevision_def Let_def
  by (auto simp: complete_def lacking_def split: sum.splits option.splits sdkError.splits)

lemma stageBody_lookup:
  assumes "stageBody cfg svc stage v = (v', res)"
  shows "(\<exists>ds. written v' = written v @ ds \<and> (\<forall>d\<in>set ds. complete cfg svc (revisionId d)) \<and>
               (if res = None then length ds = 1 else ds = [])) \<and>
         (\<forall>r. r \<in> set (metadataQueries (calls v')) \<and> r \<notin> set (metadataQueries (calls v)) \<and>
               lacking cfg svc r \<longrightarrow> res = Some NilDereference)"
proof (cases "sourcePart stage v")
  case (Inl f)
  then show ?thesis using assms by (auto simp: stageBody_def)
next
  case sp: (Inr v1)
  note fr = sourcePart_frame [OF sp]
  show ?thesis
  proof (cases "newDetails stage")
    case (Inl f)
    then show ?thesis using assms sp fr by (auto simp: stageBody_def)
  next
    case nd: (Inr d0)
    obtain v2 r where rp: "resolvePart cfg svc d0 v1 = (v2, r)"
      by (cases "resolvePart cfg svc d0 v1")
    from resolvePart_result [OF rp] fr
    have f2: "written v2 = written v" "metadataQueries (calls v2) = metadataQueries (calls v)"
      by (auto split: if_splits)
    show ?thesis
    proof (cases r)
      case (Inl f)
      then show ?thesis using assms rp f2 unfolding stageBody_steps [OF sp nd] by auto
    next
      case (Inr rid)
      with assms rp have mp: "metadataPart cfg svc (d0\<lparr>revisionId := rid\<rparr>) v2 = (v', res)"
        unfolding stageBody_steps [OF sp nd] by simp
      note m = metadataPart_lookup [OF mp]
      show ?thesis
      proof (cases res)
        case None
        with m f2 obtain d' where
          "written v' = written v @ [d']" "complete cfg svc (revisionId d')"
          "metadataQueries (calls v') = metadataQueries (calls v) @ [revisionId d']"
          by auto
        then show ?thesis using None
          by (auto dest: lacking_not_complete intro!: exI [of _ "[d']"])
      next
        case (Some f)
        with m f2 show ?thesis by auto
      qed
    qed
  qed
qed

lemma stagesLoop_lookup:
  assumes "stagesLoop cfg svc ss v0 = (v, res)"
  shows "(\<exists>ds. written v = written v0 @ ds \<and> (\<forall>d\<in>set ds. complete cfg svc (revisionId d)) \<and>
               (if res = None then length ds = length ss else length ds < length ss)) \<and>
         (\<forall>r. r \<in> set (metadataQueries (calls v)) \<and> r \<notin> set (metadataQueries (calls v0)) \<and>
               lacking cfg svc r \<longrightarrow> res = Some NilDereference)"
  using assms
proof (induction ss arbitrary: v0)
  case Nil
  then show ?case by simp
next
  case (Cons s ss)
  obtain v1 r1 where b: "stageBody cfg svc s v0 = (v1, r1)" by (cases "stageBody cfg svc s v0")
  from stageBody_lookup [OF b] obtain ds1 where
    w1: "written v1 = written v0 @ ds1" and c1: "\<forall>d\<in>set ds1. complete cfg svc (revisionId d)" and
    n1: "if r1 = None then length ds1 = 1 else ds1 = []" and
    q1: "\<forall>r. r \<in> set (metadataQueries (calls v1)) \<and> r \<notin> set (metadataQueries (calls v0)) \<and>
               lacking cfg svc r \<longrightarrow> r1 = Some NilDereference"
    by blast
  show ?case
  proof (cases r1)
    case None
    with b Cons.prems have l: "stagesLoop cfg svc ss v1 = (v, res)" by simp
    from Cons.IH [OF l] obtain ds where
      w: "written v = written v1 @ ds" and c: "\<forall>d\<in>set ds. complete cfg svc (revisionId d)" and
      n: "if res = None then length ds = length ss else length ds < length ss" and
      q: "\<forall>r. r \<in> set (metadataQueries (calls v)) \<and> r \<notin> set (metadataQueries (calls v1)) \<and>
               lacking cfg svc r \<longrightarrow> res = Some NilDereference"
      by blast
    have "written v = written v0 @ (ds1 @ ds)" using w1 w by simp
    moreover have "\<forall>d\<in>set (ds1 @ ds). complete cfg svc (revisionId d)" using c1 c by auto
    moreover have "if res = None then length (ds1 @ ds) = length (s # ss)
                   else length (ds1 @ ds) < length (s # ss)"
      using n1 n None by (auto split: if_splits)
    moreover have "\<forall>r. r \<in> set (metadataQueries (calls v)) \<and>
               r \<notin> set (metadataQueries (calls v0)) \<and>
               lacking cfg svc r \<longrightarrow> res = Some NilDereference"
      using q q1 None by auto
    ultimately show ?thesis by blast
  next
    case (Some f)
    with b Cons.prems have e: "v = v1" "res = r1" by simp_all
    have "written v = written v0 @ []" using w1 n1 Some e by simp
    moreover have "length ([] :: stageDetails list) < length (s # ss)" by simp
    ultimately show ?thesis using q1 e Some by (intro conjI exI [of _ "[]"]) auto
  qed
qed

text \<open>
  Claim C4, as the program has it.  When a run looks up the metadata of a revision id,
  the lookup succeeds and the metadata has no Version or no Commit, the run ends in the
  panic of a nil dereference: no lookup error is reported and no field is named.  No
  row is written for that revision id, and there are fewer rows than stages.
\<close>

theorem missing_field_panics:
  assumes "report cfg svc stages = (v, res)"
      and "r \<in> set (metadataQueries (calls v))"
      and "lacking cfg svc r"
  shows "res = Some NilDereference \<and> (\<forall>d\<in>set (written v). revisionId d \<noteq> r) \<and>
         length (written v) < length stages"
proof -
  from assms(1) have l: "stagesLoop cfg svc stages initVars = (v, res)" by (simp add: report_def)
  from stagesLoop_lookup [OF l] obtain ds where
    w: "written v = ds" and c: "\<forall>d\<in>set ds. complete cfg svc (revisionId d)" and
    n: "if res = None then length ds = length stages else length ds < length stages" and
    q: "\<forall>r. r \<in> set (metadataQueries (calls v)) \<and> lacking cfg svc r
            \<longrightarrow> res = Some NilDereference"
    by (auto simp: initVars_def)
  from q assms(2,3) have res: "res = Some NilDereference" by blast
  moreover have "\<forall>d\<in>set (written v). revisionId d \<noteq> r"
    using c w lacking_not_complete [OF assms(3)] by auto
  moreover have "length (written v) < length stages" using n w res by simp
  ultimately show ?thesis by blast
qed

theorem missing_field_panics_witness:
  "report exampleCfg (servicesOf exampleHistory untaggedStore) exampleStages =
     (\<lparr>execId = ''E1'', revid = ''R1'',
       written =
         [\<lparr>name = ''Source'', executionId = ''E1'', status = ''Succeeded'', revisionId = ''R1'',
           versionDeployed = ''2.3.0'', commit = ''abc123''\<rparr>,
          \<lparr>name = ''Build'', executionId = ''E1'', status = ''Succeeded'', revisionId = ''R1'',
           versionDeployed = ''2.3.0'', commit = ''abc123''\<rparr>],
       calls =
         [MetadataQuery ''artifacts'' ''version.zip'' ''R1'',
          MetadataQuery ''artifacts'' ''version.zip'' ''R1'',
          ExecutionQuery ''pipe'' ''E0'', MetadataQuery ''artifacts'' ''version.zip'' ''R0'']\<rparr>,
      Some NilDereference) \<and>
   lacking exampleCfg (servicesOf exampleHistory untaggedStore) ''R0''"
proof -
  let ?v = "\<lparr>execId = ''E1'', revid = ''R1'',
       written =
         [\<lparr>name = ''Source'', executionId = ''E1'', status = ''Succeeded'', revisionId = ''R1'',
           versionDeployed = ''2.3.0'', commit = ''abc123''\<rparr>,
          \<lparr>name = ''Build'', executionId = ''E1'', status = ''Succeeded'', revisionId = ''R1'',
           versionDeployed = ''2.3.0'', commit = ''abc123''\<rparr>],
       calls =
         [MetadataQuery ''artifacts'' ''version.zip'' ''R1'',
          MetadataQuery ''artifacts'' ''version.zip'' ''R1'',
          ExecutionQuery ''pipe'' ''E0'', MetadataQuery ''artifacts'' ''version.zip'' ''R0'']\<rparr>"
  obtain v res where run: "report exampleCfg (servicesOf exampleHistory untaggedStore) exampleStages = (v, res)"
    by (cases "report exampleCfg (servicesOf exampleHistory untaggedStore) exampleStages")
  have v: "v = ?v"
    using run by (simp add: untaggedStore_def example_defs program_defs consoleUrl_matches summary_matches)
  have q: "''R0'' \<in> set (metadataQueries (calls v))" unfolding v by simp
  have l: "lacking exampleCfg (servicesOf exampleHistory untaggedStore) ''R0''"
    by (simp add: lacking_def untaggedStore_def example_defs)
  from missing_field_panics [OF run q l] have "res = Some NilDereference" by simp
  with run v l show ?thesis by simp
qed

text \<open>
  The object of the Deploy stage's revision has a Commit and no Version: the run ends in
  the panic after two rows, not in a reported lookup error.
\<close>

theorem missing_field_counterexample:
  "snd (report exampleCfg (servicesOf exampleHistory untaggedStore) exampleStages)
     = Some NilDereference \<and>
   HeadObject (servicesOf exampleHistory untaggedStore) ''artifacts'' ''version.zip'' ''R0''
     = Inr \<lparr>Metadata = map_of [(''Commit'', ''99f0aa'')]\<rparr>"
  by (simp add: untaggedStore_def example_defs program_defs consoleUrl_matches summary_matches)















end
